theory Spec2Isabelle
  imports Main "HOL-Library.Multiset"
begin

section \<open>Asset registry backend: the event listener and its store\<close>

text \<open>
  The development embeds \<^verbatim>\<open>asset-registry-backend/eventListener.js\<close> (the class
  \<^verbatim>\<open>EventListener\<close>) and the two Sequelize models of \<^verbatim>\<open>db.js\<close> it writes to.
  JavaScript values are modelled as follows: an asset id, an address, a description and
  a transaction hash are strings (so \<^verbatim>\<open>id.toString()\<close> is the id itself); a
  chain-reported number (a \<^verbatim>\<open>BigInt\<close> argument of an event, the block number of a log,
  the timestamp of a block) is an \<^typ>\<open>int\<close>; \<^verbatim>\<open>undefined\<close> is \<^term>\<open>None\<close>. A rejected
  promise is an error value, and the store is passed explicitly, so that a handler
  returns the error it threw, if any, next to the store as it left it. The console
  output of the listener is left out.
\<close>

subsection \<open>Strings and numbers\<close>

text \<open>
  \<^verbatim>\<open>String.prototype.toLowerCase\<close>, on the ASCII letters that an address is made of.
\<close>

definition lowerChar :: "char \<Rightarrow> char" where
  "lowerChar c =
     (case map_of (zip ''ABCDEFGHIJKLMNOPQRSTUVWXYZ'' ''abcdefghijklmnopqrstuvwxyz'') c of
        Some d \<Rightarrow> d
      | None \<Rightarrow> c)"

definition toLowerCase :: "string \<Rightarrow> string" where
  "toLowerCase s = map lowerChar s"

text \<open>
  \<^verbatim>\<open>toString()\<close> of an integer: its decimal digits, with a minus sign in front of a
  negative one. \<open>parseDecimal\<close> reads such a string back.
\<close>

definition digitChar :: "nat \<Rightarrow> char" where
  "digitChar d = ''0123456789'' ! d"


fun digits :: "nat \<Rightarrow> string" where
  "digits n = (if n < 10 then [digitChar n] else digits (n div 10) @ [digitChar (n mod 10)])"

declare digits.simps [simp del]

definition toString :: "int \<Rightarrow> string" where
  "toString i = (if i < 0 then CHR ''-'' # digits (nat (- i)) else digits (nat i))"



subsection \<open>The data contract of \<^verbatim>\<open>db.js\<close>\<close>

text \<open>
  The rows of the two tables. \<open>a_id\<close> is the primary key of an asset; \<open>t_id\<close> is the
  auto-incremented key of a transfer and \<open>t_transactionHash\<close> is declared unique;
  \<open>t_assetId\<close> references an asset. The two date columns hold the reading of the local
  clock, in milliseconds.
\<close>

record asset =
  a_id :: string
  a_owner :: string
  a_description :: string
  a_timestamp :: string
  a_registeredAt :: int

record transfer =
  t_id :: nat
  t_assetId :: string
  t_fromOwner :: "string option"
  t_toOwner :: string
  t_blockNumber :: string
  t_transactionHash :: string
  t_timestamp :: string
  t_transferredAt :: int

text \<open>
  The store: both tables in insertion order, and the next key that the auto-increment
  of the transfer table hands out.
\<close>

record store =
  assets :: "asset list"
  transfers :: "transfer list"
  nextTransferId :: nat

definition emptyStore :: store where
  "emptyStore = \<lparr>assets = [], transfers = [], nextTransferId = 1\<rparr>"

subsection \<open>Errors and the environment\<close>

datatype error =
    ProviderError
  | StorageError
  | UniqueConstraintError
  | ForeignKeyConstraintError

text \<open>The database calls of the listener; each of them is awaited and can reject.\<close>

datatype db_op =
    AssetFindByPk string
  | AssetCreate string
  | AssetSave string
  | TransferFindOne string
  | TransferCreate string

datatype block = Block (timestamp: int)

text \<open>
  The envelope of an event. ethers hands the listener either a payload that carries the
  log under \<^verbatim>\<open>log\<close> (subscription) or the log itself (\<^verbatim>\<open>queryFilter\<close>); the hash of the
  transaction is under \<^verbatim>\<open>transactionHash\<close> or under \<^verbatim>\<open>hash\<close>.
\<close>

datatype logmeta =
  LogMeta (transactionHash: "string option") (hash: "string option") (blockNumber: "int option")

datatype envelope = Envelope (log: "logmeta option") (inlined: logmeta)

text \<open>The events that \<^verbatim>\<open>queryFilter\<close> returns: \<^verbatim>\<open>event.args\<close> and the envelope.\<close>

datatype registered_event =
  RegisteredEvent (r_id: string) (r_owner: string) (r_description: string) (r_timestamp: int)
    (r_envelope: envelope)

datatype transferred_event =
  TransferredEvent (x_id: string) (x_newOwner: string) (x_envelope: envelope)

text \<open>
  What the listener reads from outside: the local clock (\<^verbatim>\<open>Date.now()\<close>, \<^verbatim>\<open>new Date()\<close>),
  the provider (\<^verbatim>\<open>getBlock\<close> resolves to a block or to \<^verbatim>\<open>null\<close>, or rejects;
  \<^verbatim>\<open>getBlockNumber\<close>), the contract (\<^verbatim>\<open>queryFilter\<close> with the filter of either event, a
  first block and an optional last block), and, for every database call, whether it
  rejects because the storage is unavailable. An environment holds one reading of the
  clock; the answers of the provider and of the contract do not change during a run.
\<close>

record env =
  now :: int
  getBlock :: "int \<Rightarrow> error + block option"
  getBlockNumber :: "error + int"
  queryRegistered :: "int \<Rightarrow> int option \<Rightarrow> error + registered_event list"
  queryTransferred :: "int \<Rightarrow> int option \<Rightarrow> error + transferred_event list"
  db_fault :: "db_op \<Rightarrow> bool"

subsection \<open>The database calls\<close>

definition Asset_findByPk :: "env \<Rightarrow> string \<Rightarrow> store \<Rightarrow> error + asset option" where
  "Asset_findByPk e k s =
     (if db_fault e (AssetFindByPk k) then Inl StorageError
      else Inr (find (\<lambda>a. a_id a = k) (assets s)))"

definition Asset_create :: "env \<Rightarrow> asset \<Rightarrow> store \<Rightarrow> error + store" where
  "Asset_create e a s =
     (if db_fault e (AssetCreate (a_id a)) then Inl StorageError
      else if find (\<lambda>r. a_id r = a_id a) (assets s) \<noteq> None then Inl UniqueConstraintError
      else Inr (s\<lparr>assets := assets s @ [a]\<rparr>))"

text \<open>
  \<^verbatim>\<open>asset.save()\<close> after \<^verbatim>\<open>asset.owner = ...\<close>: the owner column of the row with the
  asset's key is updated.
\<close>

definition updateOwner :: "string \<Rightarrow> string \<Rightarrow> asset list \<Rightarrow> asset list" where
  "updateOwner k ownerAddress rows =
     map (\<lambda>r. if a_id r = k then r\<lparr>a_owner := ownerAddress\<rparr> else r) rows"

definition Asset_save :: "env \<Rightarrow> asset \<Rightarrow> store \<Rightarrow> error + store" where
  "Asset_save e a s =
     (if db_fault e (AssetSave (a_id a)) then Inl StorageError
      else Inr (s\<lparr>assets := updateOwner (a_id a) (a_owner a) (assets s)\<rparr>))"

definition Transfer_findOne :: "env \<Rightarrow> string \<Rightarrow> store \<Rightarrow> error + transfer option" where
  "Transfer_findOne e h s =
     (if db_fault e (TransferFindOne h) then Inl StorageError
      else Inr (find (\<lambda>t. t_transactionHash t = h) (transfers s)))"

text \<open>
  \<^verbatim>\<open>Transfer.create\<close>: the unique hash and the reference to the asset are checked by
  the database; the new row gets the next key and goes to the end of the table.
\<close>

definition insertTransfer ::
  "string \<Rightarrow> string option \<Rightarrow> string \<Rightarrow> string \<Rightarrow> string \<Rightarrow> string \<Rightarrow> int \<Rightarrow> store \<Rightarrow> store" where
  "insertTransfer assetId fromOwner toOwner blockNo txHash ts at s =
     s\<lparr>transfers := transfers s @
          [\<lparr>t_id = nextTransferId s, t_assetId = assetId, t_fromOwner = fromOwner,
            t_toOwner = toOwner, t_blockNumber = blockNo, t_transactionHash = txHash,
            t_timestamp = ts, t_transferredAt = at\<rparr>],
        nextTransferId := Suc (nextTransferId s)\<rparr>"

definition Transfer_create ::
  "env \<Rightarrow> string \<Rightarrow> string option \<Rightarrow> string \<Rightarrow> string \<Rightarrow> string \<Rightarrow> string \<Rightarrow> int \<Rightarrow> store
    \<Rightarrow> error + store" where
  "Transfer_create e assetId fromOwner toOwner blockNo txHash ts at s =
     (if db_fault e (TransferCreate txHash) then Inl StorageError
      else if find (\<lambda>t. t_transactionHash t = txHash) (transfers s) \<noteq> None
        then Inl UniqueConstraintError
      else if find (\<lambda>a. a_id a = assetId) (assets s) = None
        then Inl ForeignKeyConstraintError
      else Inr (insertTransfer assetId fromOwner toOwner blockNo txHash ts at s))"

subsection \<open>The envelope\<close>

text \<open>\<^verbatim>\<open>const log = event.log || event\<close>\<close>

definition eventLog :: "envelope \<Rightarrow> logmeta" where
  "eventLog ev = (case log ev of Some l \<Rightarrow> l | None \<Rightarrow> inlined ev)"

text \<open>
  \<^verbatim>\<open>const transferHash = log.transactionHash || log.hash\<close>: the first one unless it is
  undefined or empty.
\<close>

definition transferHashOf :: "logmeta \<Rightarrow> string option" where
  "transferHashOf l =
     (case transactionHash l of
        Some h \<Rightarrow> if h \<noteq> [] then Some h else hash l
      | None \<Rightarrow> hash l)"

text \<open>
  \<^verbatim>\<open>if (transferHash && blockNumber)\<close>: both defined, the hash not empty and the number
  not zero. The result is the pair the handlers go on with.
\<close>

definition txMetadata :: "envelope \<Rightarrow> (string \<times> int) option" where
  "txMetadata ev =
     (case (transferHashOf (eventLog ev), blockNumber (eventLog ev)) of
        (Some h, Some b) \<Rightarrow> if h \<noteq> [] \<and> b \<noteq> 0 then Some (h, b) else None
      | _ \<Rightarrow> None)"

subsection \<open>The handlers\<close>

text \<open>
  \<^verbatim>\<open>handleAssetRegistered(id, owner, description, timestamp, event)\<close>. The result is the
  error the handler rejects with (\<^term>\<open>None\<close> when it resolves) and the store.
\<close>

definition handleAssetRegistered ::
  "env \<Rightarrow> string \<Rightarrow> string \<Rightarrow> string \<Rightarrow> int \<Rightarrow> envelope \<Rightarrow> store \<Rightarrow> error option \<times> store" where
  "handleAssetRegistered e assetId owner description ts event s =
     (let ownerAddress = toLowerCase owner;
          timestampValue = toString ts
      in case Asset_findByPk e assetId s of
           Inl err \<Rightarrow> (Some err, s)
         | Inr existingAsset \<Rightarrow>
             (case (case existingAsset of
                      None \<Rightarrow> Asset_create e
                                \<lparr>a_id = assetId, a_owner = ownerAddress,
                                  a_description = description, a_timestamp = timestampValue,
                                  a_registeredAt = now e\<rparr> s
                    | Some _ \<Rightarrow> Inr s) of
                Inl err \<Rightarrow> (Some err, s)
              | Inr s1 \<Rightarrow>
                  (case txMetadata event of
                     None \<Rightarrow> (None, s1)
                   | Some (transferHash, blockNo) \<Rightarrow>
                       (case Transfer_findOne e transferHash s1 of
                          Inl err \<Rightarrow> (Some err, s1)
                        | Inr (Some _) \<Rightarrow> (None, s1)
                        | Inr None \<Rightarrow>
                            (case Transfer_create e assetId None ownerAddress
                                    (toString blockNo) transferHash timestampValue (now e) s1 of
                               Inl err \<Rightarrow> (Some err, s1)
                             | Inr s2 \<Rightarrow> (None, s2))))))"

text \<open>\<^verbatim>\<open>handleAssetTransferred(id, newOwner, event)\<close>\<close>

definition handleAssetTransferred ::
  "env \<Rightarrow> string \<Rightarrow> string \<Rightarrow> envelope \<Rightarrow> store \<Rightarrow> error option \<times> store" where
  "handleAssetTransferred e assetId newOwner event s =
     (let newOwnerAddress = toLowerCase newOwner
      in case Asset_findByPk e assetId s of
           Inl err \<Rightarrow> (Some err, s)
         | Inr None \<Rightarrow> (None, s)
         | Inr (Some asset) \<Rightarrow>
             (let previousOwner = a_owner asset
              in case Asset_save e (asset\<lparr>a_owner := newOwnerAddress\<rparr>) s of
                   Inl err \<Rightarrow> (Some err, s)
                 | Inr s1 \<Rightarrow>
                     (case txMetadata event of
                        None \<Rightarrow> (None, s1)
                      | Some (transferHash, blockNo) \<Rightarrow>
                          (case Transfer_findOne e transferHash s1 of
                             Inl err \<Rightarrow> (Some err, s1)
                           | Inr (Some _) \<Rightarrow> (None, s1)
                           | Inr None \<Rightarrow>
                               (case getBlock e blockNo of
                                  Inl err \<Rightarrow> (Some err, s1)
                                | Inr blk \<Rightarrow>
                                    (let blockTimestamp =
                                           (case blk of
                                              Some b \<Rightarrow> toString (timestamp b)
                                            | None \<Rightarrow> toString (now e))
                                     in case Transfer_create e assetId (Some previousOwner)
                                               newOwnerAddress (toString blockNo) transferHash
                                               blockTimestamp (now e) s1 of
                                          Inl err \<Rightarrow> (Some err, s1)
                                        | Inr s2 \<Rightarrow> (None, s2)))))))"

subsection \<open>Historical synchronisation\<close>

text \<open>
  The two \<^verbatim>\<open>for (const event of ...)\<close> loops: the events are handled in the order
  returned, and the first handler that rejects ends the loop with its error.
\<close>

fun applyRegistered :: "env \<Rightarrow> registered_event list \<Rightarrow> store \<Rightarrow> error option \<times> store" where
  "applyRegistered e [] s = (None, s)"
| "applyRegistered e (ev # evs) s =
     (case handleAssetRegistered e (r_id ev) (r_owner ev) (r_description ev) (r_timestamp ev)
             (r_envelope ev) s of
        (Some err, s1) \<Rightarrow> (Some err, s1)
      | (None, s1) \<Rightarrow> applyRegistered e evs s1)"

fun applyTransferred :: "env \<Rightarrow> transferred_event list \<Rightarrow> store \<Rightarrow> error option \<times> store" where
  "applyTransferred e [] s = (None, s)"
| "applyTransferred e (ev # evs) s =
     (case handleAssetTransferred e (x_id ev) (x_newOwner ev) (x_envelope ev) s of
        (Some err, s1) \<Rightarrow> (Some err, s1)
      | (None, s1) \<Rightarrow> applyTransferred e evs s1)"

text \<open>
  The body of the inner \<^verbatim>\<open>try\<close> of \<^verbatim>\<open>syncHistoricalEvents\<close> for the blocks
  \<open>startBlock\<close> to \<open>endBlock\<close>: the registrations of the range, then its transfers.
  The result is the error that the \<^verbatim>\<open>catch\<close> of the chunk receives, if any. (The two
  counters and the delay of the source only feed the log.)
\<close>

definition syncChunk :: "env \<Rightarrow> int \<Rightarrow> int \<Rightarrow> store \<Rightarrow> error option \<times> store" where
  "syncChunk e startBlock endBlock s =
     (case queryRegistered e startBlock (Some endBlock) of
        Inl err \<Rightarrow> (Some err, s)
      | Inr registeredEvents \<Rightarrow>
          (case applyRegistered e registeredEvents s of
             (Some err, s1) \<Rightarrow> (Some err, s1)
           | (None, s1) \<Rightarrow>
               (case queryTransferred e startBlock (Some endBlock) of
                  Inl err \<Rightarrow> (Some err, s1)
                | Inr transferredEvents \<Rightarrow> applyTransferred e transferredEvents s1)))"

text \<open>
  The \<^verbatim>\<open>for\<close> loop over the chunks, with the chunk size as a parameter \<open>k\<close>. The
  \<^verbatim>\<open>catch\<close> of a chunk logs the error and the loop goes on with the next chunk. A
  size below one would never advance; the loop is only run with a positive size.
\<close>

function syncLoop :: "int \<Rightarrow> env \<Rightarrow> int \<Rightarrow> int \<Rightarrow> store \<Rightarrow> store" where
  "syncLoop k e startBlock currentBlock s =
     (if startBlock \<le> currentBlock \<and> 0 < k
      then let endBlock = min (startBlock + k - 1) currentBlock
           in syncLoop k e (startBlock + k) currentBlock (snd (syncChunk e startBlock endBlock s))
      else s)"
  by pat_completeness auto
termination
  by (relation "measure (\<lambda>(k, e, startBlock, currentBlock, s). nat (currentBlock + 1 - startBlock))")
     auto

declare syncLoop.simps [simp del]

definition BLOCK_CHUNK_SIZE :: int where
  "BLOCK_CHUNK_SIZE = 10"

text \<open>
  \<^verbatim>\<open>syncHistoricalEvents(fromBlock)\<close>: the outer \<^verbatim>\<open>try\<close> rethrows what the query of the
  chain height throws.
\<close>

definition syncHistoricalEvents :: "env \<Rightarrow> int \<Rightarrow> store \<Rightarrow> error option \<times> store" where
  "syncHistoricalEvents e fromBlock s =
     (case getBlockNumber e of
        Inl err \<Rightarrow> (Some err, s)
      | Inr currentBlock \<Rightarrow> (None, syncLoop BLOCK_CHUNK_SIZE e fromBlock currentBlock s))"

text \<open>
  The earlier revision of \<^verbatim>\<open>syncHistoricalEvents\<close>, which queries each kind of event
  once, from \<open>fromBlock\<close> to the latest block, and rethrows every error.
\<close>

definition syncHistoricalEvents_unchunked :: "env \<Rightarrow> int \<Rightarrow> store \<Rightarrow> error option \<times> store" where
  "syncHistoricalEvents_unchunked e fromBlock s =
     (case queryRegistered e fromBlock None of
        Inl err \<Rightarrow> (Some err, s)
      | Inr registeredEvents \<Rightarrow>
          (case applyRegistered e registeredEvents s of
             (Some err, s1) \<Rightarrow> (Some err, s1)
           | (None, s1) \<Rightarrow>
               (case queryTransferred e fromBlock None of
                  Inl err \<Rightarrow> (Some err, s1)
                | Inr transferredEvents \<Rightarrow> applyTransferred e transferredEvents s1)))"

subsection \<open>A concrete run\<close>

text \<open>
  The data of a small run: asset \<open>A1\<close> is registered by \<open>0xAA\<close> in transaction \<open>0xt1\<close>
  of block 10, with the payload of a subscription, and transferred to \<open>0xBB\<close> in
  transaction \<open>0xt2\<close> of block 20, whose timestamp is 2000, with the log that
  \<^verbatim>\<open>queryFilter\<close> returns. The local clock reads 5000.
\<close>

definition registerEnvelope :: envelope where
  "registerEnvelope = Envelope (Some (LogMeta (Some ''0xt1'') None (Some 10))) (LogMeta None None None)"

definition transferEnvelope :: envelope where
  "transferEnvelope = Envelope None (LogMeta (Some ''0xt2'') None (Some 20))"

definition exampleEnv :: env where
  "exampleEnv =
     \<lparr>now = 5000,
      getBlock = (\<lambda>n. if n = 20 then Inr (Some (Block 2000)) else Inr None),
      getBlockNumber = Inr 25,
      queryRegistered = (\<lambda>a b. Inr []),
      queryTransferred = (\<lambda>a b. Inr []),
      db_fault = (\<lambda>_. False)\<rparr>"

definition registeredStore :: store where
  "registeredStore =
     \<lparr>assets = [\<lparr>a_id = ''A1'', a_owner = ''0xaa'', a_description = ''Doc'',
                  a_timestamp = ''1000'', a_registeredAt = 5000\<rparr>],
      transfers = [\<lparr>t_id = 1, t_assetId = ''A1'', t_fromOwner = None, t_toOwner = ''0xaa'',
                     t_blockNumber = ''10'', t_transactionHash = ''0xt1'',
                     t_timestamp = ''1000'', t_transferredAt = 5000\<rparr>],
      nextTransferId = 2\<rparr>"

definition transferredStore :: store where
  "transferredStore =
     \<lparr>assets = [\<lparr>a_id = ''A1'', a_owner = ''0xbb'', a_description = ''Doc'',
                  a_timestamp = ''1000'', a_registeredAt = 5000\<rparr>],
      transfers = [\<lparr>t_id = 1, t_assetId = ''A1'', t_fromOwner = None, t_toOwner = ''0xaa'',
                     t_blockNumber = ''10'', t_transactionHash = ''0xt1'',
                     t_timestamp = ''1000'', t_transferredAt = 5000\<rparr>,
                   \<lparr>t_id = 2, t_assetId = ''A1'', t_fromOwner = Some ''0xaa'', t_toOwner = ''0xbb'',
                     t_blockNumber = ''20'', t_transactionHash = ''0xt2'',
                     t_timestamp = ''2000'', t_transferredAt = 5000\<rparr>],
      nextTransferId = 3\<rparr>"

text \<open>
  More envelopes: one whose block number is zero, and one of block 21, for which the
  provider of the example has no block. In the last environment every block lookup
  rejects.
\<close>

definition zeroBlockEnvelope :: envelope where
  "zeroBlockEnvelope = Envelope None (LogMeta (Some ''0xt3'') None (Some 0))"

definition lateEnvelope :: envelope where
  "lateEnvelope = Envelope (Some (LogMeta None (Some ''0xt4'') (Some 21))) (LogMeta None None None)"

definition failingLookupEnv :: env where
  "failingLookupEnv = exampleEnv\<lparr>getBlock := (\<lambda>n. Inl ProviderError)\<rparr>"

subsection \<open>The ranges of the chunks\<close>

text \<open>
  The block ranges that \<open>syncLoop\<close> visits, in the order in which it visits them: the
  pairs \<open>(startBlock, endBlock)\<close> of the iterations of the loop.
\<close>

function chunkRanges :: "int \<Rightarrow> int \<Rightarrow> int \<Rightarrow> (int \<times> int) list" where
  "chunkRanges k startBlock currentBlock =
     (if startBlock \<le> currentBlock \<and> 0 < k
      then (startBlock, min (startBlock + k - 1) currentBlock)
             # chunkRanges k (startBlock + k) currentBlock
      else [])"
  by pat_completeness auto
termination
  by (relation "measure (\<lambda>(k, startBlock, currentBlock). nat (currentBlock + 1 - startBlock))") auto

declare chunkRanges.simps [simp del]

subsection \<open>An event source that answers from a history\<close>

text \<open>
  The chain as the listener sees it through ethers: the logs of each kind of event,
  each with the number of the block that holds it, in the order of the chain. A query
  returns the logs whose block lies in the range, a missing last block meaning the
  latest one. Nothing rejects in this environment.
\<close>

definition inRange :: "int \<Rightarrow> int option \<Rightarrow> int \<Rightarrow> bool" where
  "inRange lo hi n = (lo \<le> n \<and> (case hi of None \<Rightarrow> True | Some h \<Rightarrow> n \<le> h))"

definition logsBetween :: "(int \<times> 'a) list \<Rightarrow> int \<Rightarrow> int option \<Rightarrow> 'a list" where
  "logsBetween logs lo hi = map snd (filter (\<lambda>entry. inRange lo hi (fst entry)) logs)"

definition chainEnv ::
  "int \<Rightarrow> (int \<Rightarrow> block option) \<Rightarrow> int \<Rightarrow> (int \<times> registered_event) list
    \<Rightarrow> (int \<times> transferred_event) list \<Rightarrow> env" where
  "chainEnv clock blocks height registrations transferals =
     \<lparr>now = clock,
      getBlock = (\<lambda>n. Inr (blocks n)),
      getBlockNumber = Inr height,
      queryRegistered = (\<lambda>lo hi. Inr (logsBetween registrations lo hi)),
      queryTransferred = (\<lambda>lo hi. Inr (logsBetween transferals lo hi)),
      db_fault = (\<lambda>_. False)\<rparr>"

text \<open>
  A chain of height 25: \<open>A1\<close> is registered in block 5 and transferred in block 7,
  \<open>C1\<close> is registered in block 12 and \<open>B1\<close> in block 22. \<open>flakyEnv\<close> is the same
  source, except that the query of the registrations of the chunk that starts at block
  10 rejects.
\<close>

definition exampleRegistrations :: "(int \<times> registered_event) list" where
  "exampleRegistrations =
     [(5, RegisteredEvent ''A1'' ''0xAA'' ''Doc'' 1000
            (Envelope None (LogMeta (Some ''0xt1'') None (Some 5)))),
      (12, RegisteredEvent ''C1'' ''0xDD'' ''Car'' 1200
            (Envelope None (LogMeta (Some ''0xt6'') None (Some 12)))),
      (22, RegisteredEvent ''B1'' ''0xCC'' ''Deed'' 1500
            (Envelope None (LogMeta (Some ''0xt5'') None (Some 22))))]"

definition exampleTransferals :: "(int \<times> transferred_event) list" where
  "exampleTransferals =
     [(7, TransferredEvent ''A1'' ''0xBB''
            (Envelope None (LogMeta (Some ''0xt2'') None (Some 7))))]"

definition exampleChain :: env where
  "exampleChain =
     chainEnv 5000 (\<lambda>n. if n = 7 then Some (Block 2000) else None) 25
       exampleRegistrations exampleTransferals"

definition flakyEnv :: env where
  "flakyEnv =
     exampleChain\<lparr>queryRegistered :=
       (\<lambda>lo hi. if lo = 10 then Inl ProviderError else queryRegistered exampleChain lo hi)\<rparr>"

text \<open>The same source again, with a provider that does not answer the query of the height.\<close>

definition noHeightEnv :: env where
  "noHeightEnv = exampleChain\<lparr>getBlockNumber := Inl ProviderError\<rparr>"

subsection \<open>The transfers of one asset\<close>

text \<open>
  The Transfer rows of an asset, in insertion order, and what it means for them to form
  a chain that starts from the previous owner \<open>prev\<close>: every row starts from the owner
  that the row before it ends with.
\<close>

definition transfersOf :: "string \<Rightarrow> store \<Rightarrow> transfer list" where
  "transfersOf k s = filter (\<lambda>t. t_assetId t = k) (transfers s)"

fun chained :: "string option \<Rightarrow> transfer list \<Rightarrow> bool" where
  "chained prev [] = True"
| "chained prev (t # ts) = (t_fromOwner t = prev \<and> chained (Some (t_toOwner t)) ts)"

text \<open>
  The owner of the asset is the one that its last Transfer row ends with.
\<close>

definition ownerSettled :: "string \<Rightarrow> store \<Rightarrow> bool" where
  "ownerSettled k s =
     (case find (\<lambda>a. a_id a = k) (assets s) of
        None \<Rightarrow> False
      | Some a \<Rightarrow> transfersOf k s \<noteq> [] \<and> a_owner a = t_toOwner (last (transfersOf k s)))"

text \<open>
  A stale delivery: the transfer of \<open>A1\<close> to \<open>0xBB\<close> is delivered, then its transfer to
  \<open>0xCC\<close>, then the first event once more, then the transfer to \<open>0xDD\<close>.
\<close>

definition staleDeliveries :: "transferred_event list" where
  "staleDeliveries =
     [TransferredEvent ''A1'' ''0xBB'' transferEnvelope,
      TransferredEvent ''A1'' ''0xCC'' (Envelope None (LogMeta (Some ''0xt7'') None (Some 23))),
      TransferredEvent ''A1'' ''0xBB'' transferEnvelope,
      TransferredEvent ''A1'' ''0xDD'' (Envelope None (LogMeta (Some ''0xt8'') None (Some 24)))]"

text \<open>
  An unrecorded transfer: the transfer of \<open>A1\<close> to \<open>0xBB\<close> arrives with the block
  number zero, then the transfer to \<open>0xCC\<close> with its metadata.
\<close>

definition unrecordedDelivery :: "transferred_event list" where
  "unrecordedDelivery =
     [TransferredEvent ''A1'' ''0xBB'' zeroBlockEnvelope,
      TransferredEvent ''A1'' ''0xCC'' (Envelope None (LogMeta (Some ''0xt7'') None (Some 23)))]"

text \<open>The transaction hash that the handlers go on with, if the envelope has metadata.\<close>

definition txHash :: "envelope \<Rightarrow> string option" where
  "txHash ev = map_option fst (txMetadata ev)"

text \<open>Two transfers of \<open>A1\<close>, each in a transaction of its own.\<close>

definition twoTransfers :: "transferred_event list" where
  "twoTransfers =
     [TransferredEvent ''A1'' ''0xBB'' transferEnvelope,
      TransferredEvent ''A1'' ''0xCC'' (Envelope None (LogMeta (Some ''0xt7'') None (Some 23)))]"

subsection \<open>The content of a store\<close>

text \<open>
  What a run leaves in the store, apart from the keys that the auto-increment handed
  out and the order in which the Transfer rows were inserted: the table of the assets
  and the multiset of the Transfer rows with their keys blanked.
\<close>

definition withoutId :: "transfer \<Rightarrow> transfer" where
  "withoutId t = t\<lparr>t_id := 0\<rparr>"

definition content :: "store \<Rightarrow> asset list \<times> transfer multiset" where
  "content s = (assets s, mset (map withoutId (transfers s)))"






section \<open>Properties\<close>

subsection \<open>Lookups, owner updates and counts\<close>

lemma find_id_Some: "find (\<lambda>a. a_id a = k) xs = Some a \<Longrightarrow> a_id a = k \<and> a \<in> set xs"
  by (auto simp: find_Some_iff)

lemma find_None_ids: "(find (\<lambda>a. a_id a = k) xs = None) = (k \<notin> a_id ` set xs)"
  by (auto simp: find_None_iff)

lemma find_None_hashes:
  "(find (\<lambda>t. t_transactionHash t = h) ts = None) = (h \<notin> t_transactionHash ` set ts)"
  by (auto simp: find_None_iff)

lemma find_hash_Some:
  "find (\<lambda>t. t_transactionHash t = h) ts = Some t \<Longrightarrow> t_transactionHash t = h \<and> t \<in> set ts"
  by (auto simp: find_Some_iff)

lemma find_snoc:
  "find P (xs @ [y]) = (case find P xs of None \<Rightarrow> (if P y then Some y else None) | Some x \<Rightarrow> Some x)"
  by (induction xs) simp_all

lemma ids_updateOwner [simp]: "map a_id (updateOwner k ow rows) = map a_id rows"
  by (simp add: updateOwner_def)

lemma idset_updateOwner [simp]: "a_id ` set (updateOwner k ow rows) = a_id ` set rows"
  using ids_updateOwner[of k ow rows] by (metis list.set_map)

lemma updateOwner_twice [simp]: "updateOwner k ow (updateOwner k ow rows) = updateOwner k ow rows"
  by (simp add: updateOwner_def)

lemma updateOwner_owner:
  "a \<in> set (updateOwner k ow rows) \<Longrightarrow> a_id a = k \<Longrightarrow> a_owner a = ow"
proof -
  assume a: "a \<in> set (updateOwner k ow rows)" and k: "a_id a = k"
  from a obtain r where r: "a = (if a_id r = k then r\<lparr>a_owner := ow\<rparr> else r)"
    unfolding updateOwner_def set_map by (rule imageE)
  show ?thesis
  proof (cases "a_id r = k")
    case True
    with r show ?thesis by simp
  next
    case False
    with r have "a = r" by simp
    with False k show ?thesis by simp
  qed
qed

lemma find_updateOwner:
  "find (\<lambda>a. a_id a = k) (updateOwner k ow rows)
     = map_option (\<lambda>a. a\<lparr>a_owner := ow\<rparr>) (find (\<lambda>a. a_id a = k) rows)"
  by (induction rows) (simp_all add: updateOwner_def)

lemma timestamps_updateOwner [simp]:
  "map a_timestamp (updateOwner k ow rows) = map a_timestamp rows"
  by (simp add: updateOwner_def)


lemma count_key_distinct:
  "distinct (map f xs) \<Longrightarrow> k \<in> f ` set xs \<Longrightarrow> length (filter (\<lambda>x. f x = k) xs) = 1"
proof (induction xs)
  case Nil
  then show ?case by simp
next
  case (Cons x xs)
  show ?case
  proof (cases "f x = k")
    case True
    with Cons.prems have "k \<notin> f ` set xs" by auto
    then have "filter (\<lambda>x. f x = k) xs = []"
      by (auto simp: filter_empty_conv)
    with True show ?thesis by simp
  next
    case False
    with Cons show ?thesis by auto
  qed
qed

lemma count_key_le1:
  "distinct (map f xs) \<Longrightarrow> length (filter (\<lambda>x. f x = k \<and> P x) xs) \<le> 1"
proof (induction xs)
  case Nil
  then show ?case by simp
next
  case (Cons x xs)
  show ?case
  proof (cases "f x = k")
    case True
    with Cons.prems have "k \<notin> f ` set xs" by auto
    then have "filter (\<lambda>x. f x = k \<and> P x) xs = []"
      by (auto simp: filter_empty_conv)
    then show ?thesis by simp
  next
    case False
    with Cons show ?thesis by auto
  qed
qed


subsection \<open>The handlers, call by call\<close>

lemma handleAssetTransferred_missing:
  assumes "\<not> db_fault e (AssetFindByPk k)" and "k \<notin> a_id ` set (assets s)"
  shows "handleAssetTransferred e k newOwner event s = (None, s)"
  using assms
  by (simp add: handleAssetTransferred_def Asset_findByPk_def find_None_ids[symmetric])

lemma handleAssetTransferred_found:
  assumes found: "find (\<lambda>a. a_id a = k) (assets s) = Some asset"
    and "\<not> db_fault e (AssetFindByPk k)" and "\<not> db_fault e (AssetSave k)"
  shows "handleAssetTransferred e k newOwner event s =
    (let s1 = s\<lparr>assets := updateOwner k (toLowerCase newOwner) (assets s)\<rparr> in
     case txMetadata event of
       None \<Rightarrow> (None, s1)
     | Some (h, b) \<Rightarrow>
        if db_fault e (TransferFindOne h) then (Some StorageError, s1)
        else if h \<in> t_transactionHash ` set (transfers s) then (None, s1)
        else (case getBlock e b of
                Inl err \<Rightarrow> (Some err, s1)
              | Inr blk \<Rightarrow>
                  if db_fault e (TransferCreate h) then (Some StorageError, s1)
                  else (None, insertTransfer k (Some (a_owner asset)) (toLowerCase newOwner)
                          (toString b) h
                          (case blk of Some bl \<Rightarrow> toString (timestamp bl) | None \<Rightarrow> toString (now e))
                          (now e) s1)))"
proof -
  from found have k: "a_id asset = k" and mem: "k \<in> a_id ` set (assets s)"
    by (auto dest: find_id_Some)
  have fk: "find (\<lambda>a. a_id a = k) (updateOwner k (toLowerCase newOwner) (assets s)) \<noteq> None"
    using mem by (simp add: find_None_ids)
  show ?thesis
    using assms k mem
    by (simp add: handleAssetTransferred_def Asset_findByPk_def Asset_save_def Transfer_findOne_def
        Transfer_create_def Let_def find_None_hashes find_None_ids
        option.case_eq_if sum.case_eq_if split_beta)
qed

text \<open>The handler of Transferred events, call by call.\<close>

lemma handleAssetTransferred_cases:
  "handleAssetTransferred e k newOwner event s =
    (if db_fault e (AssetFindByPk k) then (Some StorageError, s)
     else case find (\<lambda>a. a_id a = k) (assets s) of
       None \<Rightarrow> (None, s)
     | Some asset \<Rightarrow>
        if db_fault e (AssetSave k) then (Some StorageError, s)
        else
         (let s1 = s\<lparr>assets := updateOwner k (toLowerCase newOwner) (assets s)\<rparr> in
          case txMetadata event of
            None \<Rightarrow> (None, s1)
          | Some (h, b) \<Rightarrow>
             if db_fault e (TransferFindOne h) then (Some StorageError, s1)
             else if h \<in> t_transactionHash ` set (transfers s) then (None, s1)
             else (case getBlock e b of
                     Inl err \<Rightarrow> (Some err, s1)
                   | Inr blk \<Rightarrow>
                       if db_fault e (TransferCreate h) then (Some StorageError, s1)
                       else (None, insertTransfer k (Some (a_owner asset)) (toLowerCase newOwner)
                               (toString b) h
                               (case blk of Some bl \<Rightarrow> toString (timestamp bl)
                                          | None \<Rightarrow> toString (now e))
                               (now e) s1))))"
proof (cases "db_fault e (AssetFindByPk k)")
  case True
  then show ?thesis by (simp add: handleAssetTransferred_def Asset_findByPk_def)
next
  case nf: False
  show ?thesis
  proof (cases "find (\<lambda>a. a_id a = k) (assets s)")
    case None
    with nf show ?thesis by (simp add: handleAssetTransferred_def Asset_findByPk_def)
  next
    case (Some asset)
    show ?thesis
    proof (cases "db_fault e (AssetSave k)")
      case True
      from Some have "a_id asset = k" by (auto dest: find_id_Some)
      with True nf Some show ?thesis
        by (simp add: handleAssetTransferred_def Asset_findByPk_def Asset_save_def)
    next
      case False
      from handleAssetTransferred_found[OF Some nf False] nf Some False
      show ?thesis by simp
    qed
  qed
qed

text \<open>The handler of Registered events, call by call.\<close>

lemma handleAssetRegistered_cases:
  "handleAssetRegistered e k owner d ts event s =
    (if db_fault e (AssetFindByPk k) then (Some StorageError, s)
     else if k \<notin> a_id ` set (assets s) \<and> db_fault e (AssetCreate k) then (Some StorageError, s)
     else
      (let s1 = (if k \<in> a_id ` set (assets s) then s
                 else s\<lparr>assets := assets s @
                        [\<lparr>a_id = k, a_owner = toLowerCase owner, a_description = d,
                          a_timestamp = toString ts, a_registeredAt = now e\<rparr>]\<rparr>) in
       case txMetadata event of
         None \<Rightarrow> (None, s1)
       | Some (h, b) \<Rightarrow>
          if db_fault e (TransferFindOne h) then (Some StorageError, s1)
          else if h \<in> t_transactionHash ` set (transfers s) then (None, s1)
          else if db_fault e (TransferCreate h) then (Some StorageError, s1)
          else (None, insertTransfer k None (toLowerCase owner) (toString b) h (toString ts)
                        (now e) s1)))"
  by (simp add: handleAssetRegistered_def Asset_findByPk_def Asset_create_def Transfer_findOne_def
      Transfer_create_def Let_def find_None_hashes find_None_ids
      option.case_eq_if sum.case_eq_if split_beta)

text \<open>What a successful application of Transferred to an existing asset leaves.\<close>

lemma handleAssetTransferred_resolved:
  assumes "handleAssetTransferred e k newOwner event s = (None, s1)"
    and "k \<in> a_id ` set (assets s)"
  shows "assets s1 = updateOwner k (toLowerCase newOwner) (assets s)"
    and "txMetadata event = None \<Longrightarrow> s1 = s\<lparr>assets := updateOwner k (toLowerCase newOwner) (assets s)\<rparr>"
    and "txMetadata event = Some (h, b) \<Longrightarrow> h \<in> t_transactionHash ` set (transfers s) \<Longrightarrow>
           s1 = s\<lparr>assets := updateOwner k (toLowerCase newOwner) (assets s)\<rparr>"
    and "txMetadata event = Some (h, b) \<Longrightarrow> h \<notin> t_transactionHash ` set (transfers s) \<Longrightarrow>
           \<exists>row. transfers s1 = transfers s @ [row] \<and> t_transactionHash row = h"
  using assms
  by (auto simp: handleAssetTransferred_def Asset_findByPk_def Asset_save_def Transfer_findOne_def
      Transfer_create_def insertTransfer_def Let_def find_None_ids find_None_hashes
      dest!: find_id_Some find_hash_Some split: option.splits sum.splits if_splits)

lemma handleAssetTransferred_recorded:
  assumes "k \<in> a_id ` set (assets s)"
    and "txMetadata event = Some (h, b)"
    and "h \<in> t_transactionHash ` set (transfers s)"
  shows "snd (handleAssetTransferred e k newOwner event s)
           \<in> {s, s\<lparr>assets := updateOwner k (toLowerCase newOwner) (assets s)\<rparr>}"
  using assms
  by (auto simp: handleAssetTransferred_def Asset_findByPk_def Asset_save_def Transfer_findOne_def
      Let_def find_None_hashes
      dest!: find_id_Some split: option.splits sum.splits if_splits)

lemma handleAssetRegistered_resolved:
  assumes "handleAssetRegistered e k owner d ts event s = (None, s1)"
  shows "k \<in> a_id ` set (assets s1)"
    and "txMetadata event = Some (h, b) \<Longrightarrow> h \<in> t_transactionHash ` set (transfers s1)"
    and "distinct (map a_id (assets s)) \<Longrightarrow> distinct (map a_id (assets s1))"
    and "distinct (map t_transactionHash (transfers s))
           \<Longrightarrow> distinct (map t_transactionHash (transfers s1))"
proof -
  note c = assms[unfolded handleAssetRegistered_cases Let_def]
  show "k \<in> a_id ` set (assets s1)"
    using c by (cases "txMetadata event") (auto simp: insertTransfer_def split: if_splits)
  show "txMetadata event = Some (h, b) \<Longrightarrow> h \<in> t_transactionHash ` set (transfers s1)"
    using c by (auto simp: insertTransfer_def split: if_splits)
  show "distinct (map a_id (assets s)) \<Longrightarrow> distinct (map a_id (assets s1))"
    using c by (cases "txMetadata event") (auto simp: insertTransfer_def split: if_splits)
  show "distinct (map t_transactionHash (transfers s))
           \<Longrightarrow> distinct (map t_transactionHash (transfers s1))"
    using c by (cases "txMetadata event") (auto simp: insertTransfer_def split: if_splits)
qed

subsection \<open>The loop over the chunks\<close>

lemma syncLoop_chunkRanges:
  "syncLoop k e startBlock currentBlock s =
     foldl (\<lambda>st (lo, hi). snd (syncChunk e lo hi st)) s (chunkRanges k startBlock currentBlock)"
proof (induction k e startBlock currentBlock s rule: syncLoop.induct)
  case (1 k e startBlock currentBlock s)
  show ?case
  proof (cases "startBlock \<le> currentBlock \<and> 0 < k")
    case True
    then show ?thesis
      using "1.IH"[OF True refl]
      by (simp add: syncLoop.simps[of k e startBlock currentBlock s]
          chunkRanges.simps[of k startBlock currentBlock] Let_def)
  next
    case False
    then show ?thesis
      by (auto simp: syncLoop.simps[of k e startBlock currentBlock s]
          chunkRanges.simps[of k startBlock currentBlock])
  qed
qed

lemma chunkRanges_cover:
  "0 < k \<Longrightarrow> concat (map (\<lambda>(lo, hi). [lo..hi]) (chunkRanges k startBlock currentBlock))
     = [startBlock..currentBlock]"
proof (induction k startBlock currentBlock rule: chunkRanges.induct)
  case (1 k startBlock currentBlock)
  show ?case
  proof (cases "startBlock \<le> currentBlock")
    case False
    then show ?thesis by (simp add: chunkRanges.simps[of k startBlock currentBlock])
  next
    case True
    with "1.prems" have ih: "concat (map (\<lambda>(lo, hi). [lo..hi]) (chunkRanges k (startBlock + k) currentBlock))
      = [startBlock + k..currentBlock]"
      using "1.IH" by simp
    show ?thesis
    proof (cases "startBlock + k - 1 \<le> currentBlock")
      case le: True
      have "[startBlock..currentBlock] = [startBlock..startBlock + k - 1] @ [startBlock + k - 1 + 1..currentBlock]"
        using "1.prems" le by (intro upto_split2) auto
      with True "1.prems" le ih show ?thesis
        by (simp add: chunkRanges.simps[of k startBlock currentBlock] min_def)
    next
      case gt: False
      with True "1.prems" ih show ?thesis
        by (simp add: chunkRanges.simps[of k startBlock currentBlock] min_def)
    qed
  qed
qed

subsection \<open>The concrete runs\<close>

text \<open>The definitions that a concrete run unfolds.\<close>

lemmas run_defs =
  handleAssetRegistered_def handleAssetTransferred_def Asset_findByPk_def Asset_create_def
  Asset_save_def Transfer_findOne_def Transfer_create_def insertTransfer_def updateOwner_def
  txMetadata_def
  eventLog_def transferHashOf_def toLowerCase_def lowerChar_def toString_def digits.simps
  digitChar_def emptyStore_def exampleEnv_def registerEnvelope_def transferEnvelope_def
  registeredStore_def transferredStore_def zeroBlockEnvelope_def lateEnvelope_def
  failingLookupEnv_def Let_def

lemmas sync_defs =
  syncHistoricalEvents_def syncHistoricalEvents_unchunked_def syncChunk_def BLOCK_CHUNK_SIZE_def
  chainEnv_def logsBetween_def inRange_def exampleRegistrations_def exampleTransferals_def
  exampleChain_def flakyEnv_def noHeightEnv_def

lemma example_register:
  "handleAssetRegistered exampleEnv ''A1'' ''0xAA'' ''Doc'' 1000 registerEnvelope emptyStore
     = (None, registeredStore)"
  by (simp add: run_defs)


subsection \<open>A Transferred event applied twice\<close>

text \<open>
  Claim C1. A Transferred event that carries a transaction hash and a block number is
  applied to an existing asset, and the handler resolves. Applying the same event once
  more, whatever the environment then answers, leaves the store exactly as the first
  application left it: there is exactly one Transfer row with the hash of the event, and
  the owner of the asset is the lower-cased new owner.
\<close>

theorem transferred_twice_idempotent:
  assumes hashes: "distinct (map t_transactionHash (transfers s))"
    and existing: "assetId \<in> a_id ` set (assets s)"
    and md: "txMetadata event = Some (h, b)"
    and first: "handleAssetTransferred e1 assetId newOwner event s = (None, s1)"
  shows "snd (handleAssetTransferred e2 assetId newOwner event s1) = s1
       \<and> length (filter (\<lambda>t. t_transactionHash t = h) (transfers s1)) = 1
       \<and> assetId \<in> a_id ` set (assets s1)
       \<and> (\<forall>a \<in> set (assets s1). a_id a = assetId \<longrightarrow> a_owner a = toLowerCase newOwner)"
proof -
  note r = handleAssetTransferred_resolved[OF first existing]
  have a1: "assets s1 = updateOwner assetId (toLowerCase newOwner) (assets s)" by (rule r(1))
  have ex1: "assetId \<in> a_id ` set (assets s1)"
    using existing a1 ids_updateOwner[of assetId "toLowerCase newOwner" "assets s"]
    by (metis list.set_map)
  have own: "\<forall>a \<in> set (assets s1). a_id a = assetId \<longrightarrow> a_owner a = toLowerCase newOwner"
    unfolding a1 using updateOwner_owner by blast
  have h1: "h \<in> t_transactionHash ` set (transfers s1)"
       and d1: "distinct (map t_transactionHash (transfers s1))"
  proof -
    show "h \<in> t_transactionHash ` set (transfers s1)"
    proof (cases "h \<in> t_transactionHash ` set (transfers s)")
      case True
      with r(3)[OF md] show ?thesis by simp
    next
      case False
      with r(4)[OF md] show ?thesis by auto
    qed
    show "distinct (map t_transactionHash (transfers s1))"
    proof (cases "h \<in> t_transactionHash ` set (transfers s)")
      case True
      with r(3)[OF md] hashes show ?thesis by simp
    next
      case False
      with r(4)[OF md] hashes show ?thesis by auto
    qed
  qed
  have cnt: "length (filter (\<lambda>t. t_transactionHash t = h) (transfers s1)) = 1"
    using d1 h1 by (rule count_key_distinct)
  have same: "s1\<lparr>assets := updateOwner assetId (toLowerCase newOwner) (assets s1)\<rparr> = s1"
    by (simp add: a1)
  have "snd (handleAssetTransferred e2 assetId newOwner event s1)
           \<in> {s1, s1\<lparr>assets := updateOwner assetId (toLowerCase newOwner) (assets s1)\<rparr>}"
    by (rule handleAssetTransferred_recorded[OF ex1 md h1])
  then have snd2: "snd (handleAssetTransferred e2 assetId newOwner event s1) = s1"
    unfolding same by simp
  from snd2 cnt ex1 own show ?thesis by blast
qed

theorem transferred_twice_idempotent_witness:
  "distinct (map t_transactionHash (transfers registeredStore))
   \<and> ''A1'' \<in> a_id ` set (assets registeredStore)
   \<and> txMetadata transferEnvelope = Some (''0xt2'', 20)
   \<and> handleAssetTransferred exampleEnv ''A1'' ''0xBB'' transferEnvelope registeredStore
        = (None, transferredStore)
   \<and> snd (handleAssetTransferred exampleEnv ''A1'' ''0xBB'' transferEnvelope transferredStore)
        = transferredStore
   \<and> length (filter (\<lambda>t. t_transactionHash t = ''0xt2'') (transfers transferredStore)) = 1
   \<and> map a_owner (filter (\<lambda>a. a_id a = ''A1'') (assets transferredStore)) = [''0xbb'']"
proof -
  have h1: "distinct (map t_transactionHash (transfers registeredStore))"
    by (simp add: registeredStore_def)
  have h2: "''A1'' \<in> a_id ` set (assets registeredStore)"
    by (simp add: registeredStore_def)
  have h3: "txMetadata transferEnvelope = Some (''0xt2'', 20)"
    by (simp add: run_defs)
  have h4: "handleAssetTransferred exampleEnv ''A1'' ''0xBB'' transferEnvelope registeredStore
              = (None, transferredStore)"
    by (simp add: run_defs)
  have h5: "map a_owner (filter (\<lambda>a. a_id a = ''A1'') (assets transferredStore)) = [''0xbb'']"
    by (simp add: transferredStore_def)
  from transferred_twice_idempotent[OF h1 h2 h3 h4, of exampleEnv] h1 h2 h3 h4 h5
  show ?thesis by blast
qed

subsection \<open>A Registered event applied twice\<close>

text \<open>
  Claim C2. In a store whose asset ids and transaction hashes are unique, a Registered
  event is applied and the handler resolves. Applying the same event again, with
  database calls that succeed, raises no error and returns the store unchanged: the
  asset row of the first application keeps its fields, there is exactly one Asset row
  with the id, and for every transaction hash at most one Transfer row with that hash
  has no previous owner.
\<close>

theorem registered_twice_idempotent:
  assumes ids: "distinct (map a_id (assets s))"
    and hashes: "distinct (map t_transactionHash (transfers s))"
    and first: "handleAssetRegistered e1 assetId owner description ts event s = (None, s1)"
    and healthy: "\<forall>op. \<not> db_fault e2 op"
  shows "handleAssetRegistered e2 assetId owner description ts event s1 = (None, s1)
       \<and> length (filter (\<lambda>a. a_id a = assetId) (assets s1)) = 1
       \<and> (\<forall>h. length (filter (\<lambda>t. t_transactionHash t = h \<and> t_fromOwner t = None)
                             (transfers s1)) \<le> 1)"
proof -
  note r = handleAssetRegistered_resolved[OF first]
  have ex: "assetId \<in> a_id ` set (assets s1)" by (rule r(1))
  have second: "handleAssetRegistered e2 assetId owner description ts event s1 = (None, s1)"
  proof (cases "txMetadata event")
    case None
    with ex healthy show ?thesis by (simp add: handleAssetRegistered_cases)
  next
    case (Some p)
    obtain h b where p: "p = (h, b)" by (cases p)
    from r(2)[of h b] Some p have "h \<in> t_transactionHash ` set (transfers s1)" by simp
    with ex healthy Some p show ?thesis by (simp add: handleAssetRegistered_cases)
  qed
  have one: "length (filter (\<lambda>a. a_id a = assetId) (assets s1)) = 1"
    using r(3)[OF ids] ex by (rule count_key_distinct)
  have le: "\<forall>h. length (filter (\<lambda>t. t_transactionHash t = h \<and> t_fromOwner t = None)
                             (transfers s1)) \<le> 1"
  proof
    fix h
    show "length (filter (\<lambda>t. t_transactionHash t = h \<and> t_fromOwner t = None)
                             (transfers s1)) \<le> 1"
      by (rule count_key_le1[OF r(4)[OF hashes], of h "\<lambda>t. t_fromOwner t = None"])
  qed
  from second one le show ?thesis by blast
qed

theorem registered_twice_idempotent_witness:
  "distinct (map a_id (assets emptyStore))
   \<and> distinct (map t_transactionHash (transfers emptyStore))
   \<and> handleAssetRegistered exampleEnv ''A1'' ''0xAA'' ''Doc'' 1000 registerEnvelope emptyStore
        = (None, registeredStore)
   \<and> handleAssetRegistered (exampleEnv\<lparr>now := 6000\<rparr>) ''A1'' ''0xAA'' ''Doc'' 1000 registerEnvelope
        registeredStore = (None, registeredStore)
   \<and> length (filter (\<lambda>a. a_id a = ''A1'') (assets registeredStore)) = 1
   \<and> length (filter (\<lambda>t. t_transactionHash t = ''0xt1'' \<and> t_fromOwner t = None)
                (transfers registeredStore)) = 1"
proof -
  have h1: "distinct (map a_id (assets emptyStore))" by (simp add: emptyStore_def)
  have h2: "distinct (map t_transactionHash (transfers emptyStore))" by (simp add: emptyStore_def)
  have h3: "handleAssetRegistered exampleEnv ''A1'' ''0xAA'' ''Doc'' 1000 registerEnvelope emptyStore
        = (None, registeredStore)"
    by (rule example_register)
  have h4: "\<forall>op. \<not> db_fault (exampleEnv\<lparr>now := 6000\<rparr>) op" by (simp add: exampleEnv_def)
  have h5: "length (filter (\<lambda>t. t_transactionHash t = ''0xt1'' \<and> t_fromOwner t = None)
                (transfers registeredStore)) = 1"
    by (simp add: registeredStore_def)
  from registered_twice_idempotent[OF h1 h2 h3 h4] h1 h2 h3 h5
  show ?thesis by blast
qed

subsection \<open>The chain of transfers of an asset\<close>

lemma chained_snoc:
  "chained prev (ts @ [t]) =
     (chained prev ts \<and> t_fromOwner t = (if ts = [] then prev else Some (t_toOwner (last ts))))"
  by (induction ts arbitrary: prev) auto

lemma chained_nth:
  "chained prev ts \<Longrightarrow> i < length ts \<Longrightarrow>
     t_fromOwner (ts ! i) = (if i = 0 then prev else Some (t_toOwner (ts ! (i - 1))))"
proof (induction ts arbitrary: prev i)
  case Nil
  then show ?case by simp
next
  case (Cons t ts)
  show ?case
  proof (cases i)
    case 0
    with Cons.prems show ?thesis by simp
  next
    case (Suc j)
    with Cons.prems have "t_fromOwner (ts ! j) = (if j = 0 then Some (t_toOwner t) else Some (t_toOwner (ts ! (j - 1))))"
      using Cons.IH[of "Some (t_toOwner t)" j] by simp
    with Suc show ?thesis by (cases j) simp_all
  qed
qed

lemma transfersOf_insertTransfer:
  "transfersOf k (insertTransfer k' fromOwner toOwner blockNo h ts at s) =
     (if k' = k
      then transfersOf k s @
             [\<lparr>t_id = nextTransferId s, t_assetId = k', t_fromOwner = fromOwner,
               t_toOwner = toOwner, t_blockNumber = blockNo, t_transactionHash = h,
               t_timestamp = ts, t_transferredAt = at\<rparr>]
      else transfersOf k s)"
  by (simp add: transfersOf_def insertTransfer_def)

lemma transfersOf_assets [simp]: "transfersOf k (s\<lparr>assets := rows\<rparr>) = transfersOf k s"
  by (simp add: transfersOf_def)

lemma hashes_insertTransfer:
  "t_transactionHash ` set (transfers (insertTransfer k fromOwner toOwner blockNo h ts at s))
     = insert h (t_transactionHash ` set (transfers s))"
  by (simp add: insertTransfer_def)

lemma assets_insertTransfer [simp]:
  "assets (insertTransfer k fromOwner toOwner blockNo h ts at s) = assets s"
  by (simp add: insertTransfer_def)

text \<open>A first registration with fresh transaction metadata starts the chain.\<close>

lemma registered_starts_chain:
  assumes absent: "k \<notin> a_id ` set (assets s)"
    and norows: "transfersOf k s = []"
    and md: "txMetadata event = Some (h0, b0)"
    and fresh: "h0 \<notin> t_transactionHash ` set (transfers s)"
    and run: "handleAssetRegistered e k owner d ts event s = (None, s0)"
  shows "ownerSettled k s0"
    and "chained None (transfersOf k s0)"
    and "length (transfersOf k s0) = 1"
    and "t_transactionHash ` set (transfers s0) = insert h0 (t_transactionHash ` set (transfers s))"
proof -
  define s1 where "s1 = s\<lparr>assets := assets s @
                        [\<lparr>a_id = k, a_owner = toLowerCase owner, a_description = d,
                          a_timestamp = toString ts, a_registeredAt = now e\<rparr>]\<rparr>"
  have s0: "s0 = insertTransfer k None (toLowerCase owner) (toString b0) h0 (toString ts) (now e) s1"
    using run absent fresh
    by (simp add: handleAssetRegistered_cases md Let_def s1_def split: if_splits)
  have f: "find (\<lambda>a. a_id a = k) (assets s) = None"
    using absent by (simp add: find_None_ids)
  have rows: "transfersOf k s0 =
      [\<lparr>t_id = nextTransferId s1, t_assetId = k, t_fromOwner = None,
        t_toOwner = toLowerCase owner, t_blockNumber = toString b0, t_transactionHash = h0,
        t_timestamp = toString ts, t_transferredAt = now e\<rparr>]"
    by (simp add: s0 transfersOf_insertTransfer s1_def norows)
  have fnd: "find (\<lambda>a. a_id a = k) (assets s0) =
      Some \<lparr>a_id = k, a_owner = toLowerCase owner, a_description = d,
            a_timestamp = toString ts, a_registeredAt = now e\<rparr>"
    by (simp add: s0 s1_def find_snoc f)
  show "ownerSettled k s0"
    by (simp add: ownerSettled_def fnd rows)
  show "chained None (transfersOf k s0)" by (simp add: rows)
  show "length (transfersOf k s0) = 1" by (simp add: rows)
  show "t_transactionHash ` set (transfers s0) = insert h0 (t_transactionHash ` set (transfers s))"
    by (simp add: s0 hashes_insertTransfer s1_def)
qed

text \<open>A transfer with fresh transaction metadata extends the chain.\<close>

lemma transferred_extends_chain:
  assumes settled: "ownerSettled k s"
    and chain: "chained None (transfersOf k s)"
    and md: "txMetadata event = Some (h, b)"
    and fresh: "h \<notin> t_transactionHash ` set (transfers s)"
    and run: "handleAssetTransferred e k newOwner event s = (None, s1)"
  shows "ownerSettled k s1"
    and "chained None (transfersOf k s1)"
    and "length (transfersOf k s1) = Suc (length (transfersOf k s))"
    and "t_transactionHash ` set (transfers s1) = insert h (t_transactionHash ` set (transfers s))"
proof -
  from settled obtain a where a: "find (\<lambda>a. a_id a = k) (assets s) = Some a"
    and ne: "transfersOf k s \<noteq> []"
    and ow: "a_owner a = t_toOwner (last (transfersOf k s))"
    by (auto simp: ownerSettled_def split: option.splits)
  define s' where "s' = s\<lparr>assets := updateOwner k (toLowerCase newOwner) (assets s)\<rparr>"
  from run a md fresh obtain blk where
    s1: "s1 = insertTransfer k (Some (a_owner a)) (toLowerCase newOwner) (toString b) h
               (case blk of Some bl \<Rightarrow> toString (timestamp bl) | None \<Rightarrow> toString (now e))
               (now e) s'"
    by (auto simp: handleAssetTransferred_cases Let_def s'_def split: if_splits sum.splits)
  have rows: "transfersOf k s1 = transfersOf k s @
      [\<lparr>t_id = nextTransferId s', t_assetId = k, t_fromOwner = Some (a_owner a),
        t_toOwner = toLowerCase newOwner, t_blockNumber = toString b, t_transactionHash = h,
        t_timestamp = (case blk of Some bl \<Rightarrow> toString (timestamp bl) | None \<Rightarrow> toString (now e)),
        t_transferredAt = now e\<rparr>]"
    by (simp add: s1 transfersOf_insertTransfer s'_def)
  have fnd: "find (\<lambda>a. a_id a = k) (assets s1) = Some (a\<lparr>a_owner := toLowerCase newOwner\<rparr>)"
    by (simp add: s1 s'_def find_updateOwner a)
  show "ownerSettled k s1"
    by (simp add: ownerSettled_def fnd rows)
  show "chained None (transfersOf k s1)"
    using chain ne ow by (simp add: rows chained_snoc)
  show "length (transfersOf k s1) = Suc (length (transfersOf k s))" by (simp add: rows)
  show "t_transactionHash ` set (transfers s1) = insert h (t_transactionHash ` set (transfers s))"
    by (simp add: s1 hashes_insertTransfer s'_def)
qed

lemma transfers_keep_chain:
  assumes "ownerSettled k s"
    and "chained None (transfersOf k s)"
    and "\<forall>ev \<in> set evs. x_id ev = k
           \<and> (\<exists>h. txHash (x_envelope ev) = Some h \<and> h \<notin> t_transactionHash ` set (transfers s))"
    and "distinct (map (\<lambda>ev. txHash (x_envelope ev)) evs)"
    and "applyTransferred e evs s = (None, s1)"
  shows "chained None (transfersOf k s1)
         \<and> length (transfersOf k s1) = length (transfersOf k s) + length evs"
  using assms
proof (induction evs arbitrary: s)
  case Nil
  then show ?case by simp
next
  case (Cons ev evs)
  obtain r s' where step: "handleAssetTransferred e (x_id ev) (x_newOwner ev) (x_envelope ev) s = (r, s')"
    by (cases "handleAssetTransferred e (x_id ev) (x_newOwner ev) (x_envelope ev) s")
  from Cons.prems(5) step have r: "r = None" and rest: "applyTransferred e evs s' = (None, s1)"
    by (auto split: option.splits)
  from Cons.prems(3) have k: "x_id ev = k" by simp
  from Cons.prems(3) obtain h where h: "txHash (x_envelope ev) = Some h"
    and fresh: "h \<notin> t_transactionHash ` set (transfers s)"
    by auto
  from h obtain b where md: "txMetadata (x_envelope ev) = Some (h, b)"
    by (auto simp: txHash_def)
  from step r k have run: "handleAssetTransferred e k (x_newOwner ev) (x_envelope ev) s = (None, s')"
    by simp
  note ext = transferred_extends_chain[OF Cons.prems(1) Cons.prems(2) md fresh run]
  have others: "\<forall>ev' \<in> set evs. x_id ev' = k
           \<and> (\<exists>h'. txHash (x_envelope ev') = Some h' \<and> h' \<notin> t_transactionHash ` set (transfers s'))"
  proof
    fix ev' assume m: "ev' \<in> set evs"
    with Cons.prems(3) obtain h' where h': "x_id ev' = k" "txHash (x_envelope ev') = Some h'"
      "h' \<notin> t_transactionHash ` set (transfers s)"
      by auto
    from Cons.prems(4) m have "txHash (x_envelope ev) \<noteq> txHash (x_envelope ev')"
      by auto
    with h h' have "h' \<noteq> h" by simp
    with h' ext(4) show "x_id ev' = k
           \<and> (\<exists>h'. txHash (x_envelope ev') = Some h' \<and> h' \<notin> t_transactionHash ` set (transfers s'))"
      by simp
  qed
  from Cons.prems(4) have d: "distinct (map (\<lambda>ev. txHash (x_envelope ev)) evs)" by simp
  from Cons.IH[OF ext(1) ext(2) others d rest] ext(3) show ?case by simp
qed

text \<open>
  Claim C3, as the code has it. An asset that the store does not know yet, and that has
  no Transfer rows, is registered by an event whose envelope has transaction metadata
  with a hash not recorded yet. Then a sequence of Transferred events for the asset is
  applied, each with transaction metadata, the hashes pairwise distinct and not
  recorded yet, and every application resolves. The Transfer rows of the asset, in
  insertion order, are then one more than the events; the first has no previous owner,
  and every later one starts from the owner that the row before it ends with.
\<close>

theorem transfer_chain:
  assumes absent: "k \<notin> a_id ` set (assets s)"
    and norows: "transfersOf k s = []"
    and hash0: "txHash event = Some h0"
    and fresh0: "h0 \<notin> t_transactionHash ` set (transfers s)"
    and registered: "handleAssetRegistered e k owner d ts event s = (None, s0)"
    and events: "\<forall>ev \<in> set evs. x_id ev = k
           \<and> (\<exists>h. txHash (x_envelope ev) = Some h \<and> h \<notin> t_transactionHash ` set (transfers s0))"
    and apart: "distinct (map (\<lambda>ev. txHash (x_envelope ev)) evs)"
    and applied: "applyTransferred e' evs s0 = (None, s1)"
  shows "length (transfersOf k s1) = Suc (length evs)
     \<and> t_fromOwner (transfersOf k s1 ! 0) = None
     \<and> (\<forall>i. 0 < i \<and> i < length (transfersOf k s1) \<longrightarrow>
           t_fromOwner (transfersOf k s1 ! i) = Some (t_toOwner (transfersOf k s1 ! (i - 1))))"
proof -
  from hash0 obtain b0 where md: "txMetadata event = Some (h0, b0)"
    by (auto simp: txHash_def)
  note st = registered_starts_chain[OF absent norows md fresh0 registered]
  from transfers_keep_chain[OF st(1) st(2) events apart applied] st(3)
  have c: "chained None (transfersOf k s1)" and l: "length (transfersOf k s1) = Suc (length evs)"
    by simp_all
  from chained_nth[OF c, of 0] l have first: "t_fromOwner (transfersOf k s1 ! 0) = None" by simp
  have later: "\<forall>i. 0 < i \<and> i < length (transfersOf k s1) \<longrightarrow>
           t_fromOwner (transfersOf k s1 ! i) = Some (t_toOwner (transfersOf k s1 ! (i - 1)))"
    using chained_nth[OF c] by simp
  from l first later show ?thesis by blast
qed

theorem transfer_chain_witness:
  "handleAssetRegistered exampleEnv ''A1'' ''0xAA'' ''Doc'' 1000 registerEnvelope emptyStore
     = (None, registeredStore)
   \<and> fst (applyTransferred exampleEnv twoTransfers registeredStore) = None
   \<and> length (transfersOf ''A1'' (snd (applyTransferred exampleEnv twoTransfers registeredStore)))
       = Suc (length twoTransfers)
   \<and> map (\<lambda>t. (t_fromOwner t, t_toOwner t))
        (transfersOf ''A1'' (snd (applyTransferred exampleEnv twoTransfers registeredStore)))
      = [(None, ''0xaa''), (Some ''0xaa'', ''0xbb''), (Some ''0xbb'', ''0xcc'')]"
proof -
  have h1: "''A1'' \<notin> a_id ` set (assets emptyStore)" by (simp add: emptyStore_def)
  have h2: "transfersOf ''A1'' emptyStore = []" by (simp add: transfersOf_def emptyStore_def)
  have h3: "txHash registerEnvelope = Some ''0xt1''" by (simp add: txHash_def run_defs)
  have h4: "''0xt1'' \<notin> t_transactionHash ` set (transfers emptyStore)" by (simp add: emptyStore_def)
  have h5: "handleAssetRegistered exampleEnv ''A1'' ''0xAA'' ''Doc'' 1000 registerEnvelope emptyStore
     = (None, registeredStore)" by (rule example_register)
  have h6: "\<forall>ev \<in> set twoTransfers. x_id ev = ''A1''
           \<and> (\<exists>h. txHash (x_envelope ev) = Some h
                \<and> h \<notin> t_transactionHash ` set (transfers registeredStore))"
    by (simp add: twoTransfers_def txHash_def run_defs)
  have h7: "distinct (map (\<lambda>ev. txHash (x_envelope ev)) twoTransfers)"
    by (simp add: twoTransfers_def txHash_def run_defs)
  have h8: "fst (applyTransferred exampleEnv twoTransfers registeredStore) = None"
    by (simp add: twoTransfers_def run_defs)
  then have h9: "applyTransferred exampleEnv twoTransfers registeredStore
     = (None, snd (applyTransferred exampleEnv twoTransfers registeredStore))"
    by (simp add: prod_eq_iff)
  from transfer_chain[OF h1 h2 h3 h4 h5 h6 h7 h9]
  have h10: "length (transfersOf ''A1'' (snd (applyTransferred exampleEnv twoTransfers registeredStore)))
       = Suc (length twoTransfers)" by blast
  have h11: "map (\<lambda>t. (t_fromOwner t, t_toOwner t))
        (transfersOf ''A1'' (snd (applyTransferred exampleEnv twoTransfers registeredStore)))
      = [(None, ''0xaa''), (Some ''0xaa'', ''0xbb''), (Some ''0xbb'', ''0xcc'')]"
    by (simp add: twoTransfers_def transfersOf_def run_defs)
  from h5 h8 h10 h11 show ?thesis by blast
qed

text \<open>
  The claim as stated covers every sequence of Transferred events. When a stale event
  is delivered again, its hash is already recorded, so no row is added, but the owner
  is set back; the row of the next transfer then starts from an owner that the row
  before it does not end with. The same happens after an event whose envelope has no
  usable metadata: the owner changes and no row records it.
\<close>

theorem delivery_breaks_chain:
  "fst (applyTransferred exampleEnv staleDeliveries registeredStore) = None
   \<and> map (\<lambda>t. (t_fromOwner t, t_toOwner t))
        (transfersOf ''A1'' (snd (applyTransferred exampleEnv staleDeliveries registeredStore)))
      = [(None, ''0xaa''), (Some ''0xaa'', ''0xbb''), (Some ''0xbb'', ''0xcc''),
         (Some ''0xbb'', ''0xdd'')]
   \<and> \<not> chained None
         (transfersOf ''A1'' (snd (applyTransferred exampleEnv staleDeliveries registeredStore)))
   \<and> fst (applyTransferred exampleEnv unrecordedDelivery registeredStore) = None
   \<and> map (\<lambda>t. (t_fromOwner t, t_toOwner t))
        (transfersOf ''A1'' (snd (applyTransferred exampleEnv unrecordedDelivery registeredStore)))
      = [(None, ''0xaa''), (Some ''0xbb'', ''0xcc'')]
   \<and> \<not> chained None
         (transfersOf ''A1'' (snd (applyTransferred exampleEnv unrecordedDelivery registeredStore)))"
  by (simp add: run_defs staleDeliveries_def unrecordedDelivery_def transfersOf_def)

subsection \<open>Chunked and unchunked synchronisation\<close>

lemma hash_withoutId [simp]: "t_transactionHash (withoutId t) = t_transactionHash t"
  by (simp add: withoutId_def)

lemma hashes_withoutId [simp]:
  "t_transactionHash ` withoutId ` set ts = t_transactionHash ` set ts"
  by (simp add: image_image withoutId_def)


lemma content_assets [simp]: "content (s\<lparr>assets := rows\<rparr>) = (rows, snd (content s))"
  by (simp add: content_def)































subsection \<open>The timestamp of a transfer\<close>

text \<open>
  Claim C5, as the code has it. For an existing asset, an envelope with transaction
  metadata whose hash no Transfer has yet, and database calls that succeed: when the
  block lookup resolves, the handler resolves and the new Transfer carries the decimal
  timestamp of the block, or, when the lookup resolved to nothing, the decimal reading
  of the local clock; when the block lookup rejects, there is no fallback: the handler
  rejects with the error of the lookup, the owner already changed and no Transfer
  inserted.
\<close>

theorem transfer_timestamp_resolution:
  assumes found: "find (\<lambda>a. a_id a = assetId) (assets s) = Some asset"
    and healthy: "\<forall>op. \<not> db_fault e op"
    and md: "txMetadata event = Some (h, b)"
    and fresh: "h \<notin> t_transactionHash ` set (transfers s)"
  shows "(\<forall>blk. getBlock e b = Inr blk \<longrightarrow>
            handleAssetTransferred e assetId newOwner event s =
              (None, insertTransfer assetId (Some (a_owner asset)) (toLowerCase newOwner)
                       (toString b) h
                       (case blk of Some bl \<Rightarrow> toString (timestamp bl) | None \<Rightarrow> toString (now e))
                       (now e)
                       (s\<lparr>assets := updateOwner assetId (toLowerCase newOwner) (assets s)\<rparr>)))
       \<and> (\<forall>err. getBlock e b = Inl err \<longrightarrow>
            handleAssetTransferred e assetId newOwner event s =
              (Some err, s\<lparr>assets := updateOwner assetId (toLowerCase newOwner) (assets s)\<rparr>))"
proof -
  have l: "\<not> db_fault e (AssetFindByPk assetId)" and sv: "\<not> db_fault e (AssetSave assetId)"
    using healthy by simp_all
  show ?thesis
    using healthy fresh
    by (simp add: handleAssetTransferred_found[OF found l sv] md Let_def)
qed

theorem transfer_timestamp_resolution_witness:
  "find (\<lambda>a. a_id a = ''A1'') (assets registeredStore)
     = Some \<lparr>a_id = ''A1'', a_owner = ''0xaa'', a_description = ''Doc'',
              a_timestamp = ''1000'', a_registeredAt = 5000\<rparr>
   \<and> txMetadata lateEnvelope = Some (''0xt4'', 21)
   \<and> getBlock exampleEnv 21 = Inr None
   \<and> map t_timestamp (transfers (snd (handleAssetTransferred exampleEnv ''A1'' ''0xBB''
                                          lateEnvelope registeredStore)))
       = [''1000'', ''5000'']
   \<and> getBlock exampleEnv 20 = Inr (Some (Block 2000))
   \<and> map t_timestamp (transfers (snd (handleAssetTransferred exampleEnv ''A1'' ''0xBB''
                                          transferEnvelope registeredStore)))
       = [''1000'', ''2000'']"
proof -
  have h1: "find (\<lambda>a. a_id a = ''A1'') (assets registeredStore)
     = Some \<lparr>a_id = ''A1'', a_owner = ''0xaa'', a_description = ''Doc'',
              a_timestamp = ''1000'', a_registeredAt = 5000\<rparr>"
    by (simp add: registeredStore_def)
  have h2: "\<forall>op. \<not> db_fault exampleEnv op" by (simp add: exampleEnv_def)
  have h3: "txMetadata lateEnvelope = Some (''0xt4'', 21)" by (simp add: run_defs)
  have h3': "txMetadata transferEnvelope = Some (''0xt2'', 20)" by (simp add: run_defs)
  have h4: "''0xt4'' \<notin> t_transactionHash ` set (transfers registeredStore)"
    by (simp add: registeredStore_def)
  have h4': "''0xt2'' \<notin> t_transactionHash ` set (transfers registeredStore)"
    by (simp add: registeredStore_def)
  have g: "getBlock exampleEnv 21 = Inr None" "getBlock exampleEnv 20 = Inr (Some (Block 2000))"
    by (simp_all add: exampleEnv_def)
  from transfer_timestamp_resolution[OF h1 h2 h3 h4, of "''0xBB''"]
       transfer_timestamp_resolution[OF h1 h2 h3' h4', of "''0xBB''"] g h1 h3
  show ?thesis
    by (simp add: insertTransfer_def registeredStore_def exampleEnv_def toString_def digits.simps
        digitChar_def)
qed

text \<open>
  The claim as stated promises the fallback also when the lookup fails. In the example
  below every block lookup rejects, and so does the handler.
\<close>

theorem failing_lookup_surfaces:
  "txMetadata lateEnvelope = Some (''0xt4'', 21)
   \<and> find (\<lambda>t. t_transactionHash t = ''0xt4'') (transfers registeredStore) = None
   \<and> getBlock failingLookupEnv 21 = Inl ProviderError
   \<and> handleAssetTransferred failingLookupEnv ''A1'' ''0xBB'' lateEnvelope registeredStore =
        (Some ProviderError,
         \<lparr>assets = [\<lparr>a_id = ''A1'', a_owner = ''0xbb'', a_description = ''Doc'',
                      a_timestamp = ''1000'', a_registeredAt = 5000\<rparr>],
          transfers = transfers registeredStore, nextTransferId = 2\<rparr>)"
  by (simp add: run_defs)

subsection \<open>Orphan transfers\<close>

text \<open>
  Claim C6. A Transferred event for an asset id that has no Asset row changes nothing:
  provided the lookup of the asset itself does not reject, the handler resolves without
  an error and returns the store as it was, so no Asset row and no Transfer row is
  created.
\<close>

theorem orphan_transfer_discarded:
  assumes "\<not> db_fault e (AssetFindByPk assetId)"
    and "assetId \<notin> a_id ` set (assets s)"
  shows "handleAssetTransferred e assetId newOwner event s = (None, s)"
  using assms by (rule handleAssetTransferred_missing)

theorem orphan_transfer_discarded_witness:
  "\<not> db_fault exampleEnv (AssetFindByPk ''A1'')
   \<and> ''A1'' \<notin> a_id ` set (assets emptyStore)
   \<and> handleAssetTransferred exampleEnv ''A1'' ''0xBB'' transferEnvelope emptyStore
        = (None, emptyStore)"
proof -
  have h1: "\<not> db_fault exampleEnv (AssetFindByPk ''A1'')" by (simp add: exampleEnv_def)
  have h2: "''A1'' \<notin> a_id ` set (assets emptyStore)" by (simp add: emptyStore_def)
  from orphan_transfer_discarded[OF h1 h2] h1 h2 show ?thesis by blast
qed

subsection \<open>Failures of the synchronisation\<close>

text \<open>
  Claim C7. When the query of the chain height rejects, \<open>syncHistoricalEvents\<close> rejects
  with that error and leaves the store alone; nothing else makes it reject. When the
  query answers, the synchronisation resolves, and the store it leaves is the one
  obtained by running the chunks one after the other, in ascending order, each from the
  store that the chunk before it left, whether that chunk threw or not; the ranges of
  the chunks are the blocks from \<open>fromBlock\<close> to the chain height, each once. A chunk
  that throws ends where it throws: at once and with the store as it found it when the
  fetch of its registrations rejects, and otherwise with the store as the events
  applied before the failure left it.
\<close>

theorem sync_partial_failure:
  "(\<forall>err. getBlockNumber e = Inl err \<longrightarrow> syncHistoricalEvents e fromBlock s = (Some err, s))
   \<and> (\<forall>currentBlock. getBlockNumber e = Inr currentBlock \<longrightarrow>
         syncHistoricalEvents e fromBlock s =
           (None, foldl (\<lambda>st (lo, hi). snd (syncChunk e lo hi st)) s
                    (chunkRanges BLOCK_CHUNK_SIZE fromBlock currentBlock))
         \<and> concat (map (\<lambda>(lo, hi). [lo..hi]) (chunkRanges BLOCK_CHUNK_SIZE fromBlock currentBlock))
             = [fromBlock..currentBlock])
   \<and> (\<forall>lo hi st err. queryRegistered e lo (Some hi) = Inl err \<longrightarrow>
         syncChunk e lo hi st = (Some err, st))
   \<and> (\<forall>lo hi st evs err st1.
         queryRegistered e lo (Some hi) = Inr evs \<and> applyRegistered e evs st = (Some err, st1) \<longrightarrow>
         syncChunk e lo hi st = (Some err, st1))
   \<and> (\<forall>lo hi st evs st1 err.
         queryRegistered e lo (Some hi) = Inr evs \<and> applyRegistered e evs st = (None, st1)
         \<and> queryTransferred e lo (Some hi) = Inl err \<longrightarrow>
         syncChunk e lo hi st = (Some err, st1))"
proof -
  have 1: "\<forall>err. getBlockNumber e = Inl err \<longrightarrow> syncHistoricalEvents e fromBlock s = (Some err, s)"
    by (simp add: syncHistoricalEvents_def)
  have 2: "\<forall>currentBlock. getBlockNumber e = Inr currentBlock \<longrightarrow>
         syncHistoricalEvents e fromBlock s =
           (None, foldl (\<lambda>st (lo, hi). snd (syncChunk e lo hi st)) s
                    (chunkRanges BLOCK_CHUNK_SIZE fromBlock currentBlock))
         \<and> concat (map (\<lambda>(lo, hi). [lo..hi]) (chunkRanges BLOCK_CHUNK_SIZE fromBlock currentBlock))
             = [fromBlock..currentBlock]"
    by (simp add: syncHistoricalEvents_def syncLoop_chunkRanges chunkRanges_cover
        BLOCK_CHUNK_SIZE_def)
  have 3: "\<forall>lo hi st err. queryRegistered e lo (Some hi) = Inl err \<longrightarrow>
         syncChunk e lo hi st = (Some err, st)"
    by (simp add: syncChunk_def)
  have 4: "\<forall>lo hi st evs err st1.
         queryRegistered e lo (Some hi) = Inr evs \<and> applyRegistered e evs st = (Some err, st1) \<longrightarrow>
         syncChunk e lo hi st = (Some err, st1)"
    by (simp add: syncChunk_def)
  have 5: "\<forall>lo hi st evs st1 err.
         queryRegistered e lo (Some hi) = Inr evs \<and> applyRegistered e evs st = (None, st1)
         \<and> queryTransferred e lo (Some hi) = Inl err \<longrightarrow>
         syncChunk e lo hi st = (Some err, st1)"
    by (simp add: syncChunk_def)
  from 1 2 3 4 5 show ?thesis by blast
qed

theorem sync_partial_failure_witness:
  "getBlockNumber flakyEnv = Inr 25
   \<and> queryRegistered flakyEnv 10 (Some 19) = Inl ProviderError
   \<and> chunkRanges BLOCK_CHUNK_SIZE 0 25 = [(0, 9), (10, 19), (20, 25)]
   \<and> syncChunk flakyEnv 10 19 emptyStore = (Some ProviderError, emptyStore)
   \<and> syncHistoricalEvents flakyEnv 0 emptyStore =
        (None, foldl (\<lambda>st (lo, hi). snd (syncChunk flakyEnv lo hi st)) emptyStore
                 (chunkRanges BLOCK_CHUNK_SIZE 0 25))
   \<and> map a_id (assets (snd (syncHistoricalEvents flakyEnv 0 emptyStore))) = [''A1'', ''B1'']
   \<and> map t_transactionHash (transfers (snd (syncHistoricalEvents flakyEnv 0 emptyStore)))
       = [''0xt1'', ''0xt2'', ''0xt5'']
   \<and> getBlockNumber noHeightEnv = Inl ProviderError
   \<and> syncHistoricalEvents noHeightEnv 0 emptyStore = (Some ProviderError, emptyStore)"
proof -
  have h1: "getBlockNumber flakyEnv = Inr 25" by (simp add: sync_defs)
  have h2: "queryRegistered flakyEnv 10 (Some 19) = Inl ProviderError" by (simp add: sync_defs)
  have h3: "chunkRanges BLOCK_CHUNK_SIZE 0 25 = [(0, 9), (10, 19), (20, 25)]"
    by (simp add: chunkRanges.simps BLOCK_CHUNK_SIZE_def)
  note t = sync_partial_failure[of flakyEnv 0 emptyStore]
  from t h2 have h4: "syncChunk flakyEnv 10 19 emptyStore = (Some ProviderError, emptyStore)"
    by blast
  from t h1 have h5: "syncHistoricalEvents flakyEnv 0 emptyStore =
        (None, foldl (\<lambda>st (lo, hi). snd (syncChunk flakyEnv lo hi st)) emptyStore
                 (chunkRanges BLOCK_CHUNK_SIZE 0 25))"
    by blast
  have h6: "map a_id (assets (snd (syncHistoricalEvents flakyEnv 0 emptyStore))) = [''A1'', ''B1'']"
    by (simp add: sync_defs run_defs syncLoop.simps)
  have h7: "map t_transactionHash (transfers (snd (syncHistoricalEvents flakyEnv 0 emptyStore)))
       = [''0xt1'', ''0xt2'', ''0xt5'']"
    by (simp add: sync_defs run_defs syncLoop.simps)
  have h8: "getBlockNumber noHeightEnv = Inl ProviderError" by (simp add: sync_defs)
  from sync_partial_failure[of noHeightEnv 0 emptyStore] h8
  have h9: "syncHistoricalEvents noHeightEnv 0 emptyStore = (Some ProviderError, emptyStore)"
    by blast
  from h1 h2 h3 h4 h5 h6 h7 h8 h9 show ?thesis by blast
qed

subsection \<open>Numbers as decimal strings\<close>















subsection \<open>Events without a usable block number\<close>



subsection \<open>Failures after the owner update\<close>



end
